theory Spec2Isabelle
  imports Complex_Main "HOL-Library.Word" "HOL-Library.Sublist" "HOL-Library.List_Lexorder"
begin

section \<open>The unused-javascript audit (core/audits/byte-efficiency/unused-javascript.js)\<close>

subsection \<open>Strings\<close>

text \<open>
  A JavaScript string is a sequence of 16-bit code units. The relational operators compare
  two strings code unit by code unit, a proper prefix being the smaller string: this is the
  lexicographic order that \<open>HOL-Library.List_Lexorder\<close> puts on lists.
  \<open>s.startsWith(p)\<close> is \<^term>\<open>prefix p s\<close> and \<open>s.slice(0, -1)\<close> is \<^term>\<open>butlast s\<close>.
  The functions of the prefix trimmer are written over any linearly ordered type of code
  units; the audit uses them at \<open>16 word\<close>.
\<close>

type_synonym code_unit = "16 word"
type_synonym jsstring = "code_unit list"

definition ascii :: "string \<Rightarrow> jsstring" where
  "ascii s = map (\<lambda>c. of_char c) s"

text \<open>
  The loop of \<open>commonPrefix\<close> (lines 38-40):
  \<^verbatim>\<open>while (!maxWord.startsWith(prefix)) { prefix = prefix.slice(0, -1); }\<close>
\<close>

function shorten :: "'a list \<Rightarrow> 'a list \<Rightarrow> 'a list" where
  "shorten maxWord pre =
     (if \<not> prefix pre maxWord then shorten maxWord (butlast pre) else pre)"
  by pat_completeness auto
termination
proof (relation "measure (\<lambda>(maxWord, pre). length pre)")
  show "wf (measure (\<lambda>(maxWord :: 'a list, pre :: 'a list). length pre))"
    by simp
next
  fix maxWord pre :: "'a list"
  assume "\<not> prefix pre maxWord"
  then have "pre \<noteq> []"
    by auto
  then show "((maxWord, butlast pre), (maxWord, pre)) \<in> measure (\<lambda>(maxWord, pre). length pre)"
    by simp
qed

declare shorten.simps [simp del]

text \<open>
  \<open>commonPrefix\<close> (lines 31-43). \<open>strings.reduce(f)\<close> without an initial value folds
  from the left, starting with the first element; it is only reached on a non-empty array.
\<close>

fun commonPrefix :: "'a::linorder list list \<Rightarrow> 'a list" where
  "commonPrefix [] = []"
| "commonPrefix (s # strings) =
     (let maxWord = foldl (\<lambda>a b. if a > b then a else b) s strings;
          pre = foldl (\<lambda>a b. if a > b then b else a) s strings
      in shorten maxWord pre)"

text \<open>\<open>trimCommonPrefix\<close> (lines 50-53); the ellipsis is the single code unit U+2026.\<close>

definition ellipsis :: code_unit where
  "ellipsis = 0x2026"

definition trimCommonPrefix :: "jsstring \<Rightarrow> jsstring \<Rightarrow> jsstring" where
  "trimCommonPrefix string commonPrefix' =
     (if commonPrefix' = [] then string
      else if prefix commonPrefix' string
           then ellipsis # drop (length commonPrefix') string
           else string)"

subsection \<open>Numbers\<close>

text \<open>
  A JavaScript number is an IEEE-754 double. The model keeps its four kinds of value, with
  the finite values taken as exact rationals: the rounding error of doubles, the sign of
  zero and overflow are not modelled. Byte counts delivered by the collaborators of the
  audit (summary figures, bundle sizes, transfer sizes) are natural numbers.
\<close>

datatype jsnum = Fin rat | PosInf | NegInf | NaN

fun js_add :: "jsnum \<Rightarrow> jsnum \<Rightarrow> jsnum" where
  "js_add (Fin a) (Fin b) = Fin (a + b)"
| "js_add NaN y = NaN"
| "js_add x NaN = NaN"
| "js_add PosInf NegInf = NaN"
| "js_add NegInf PosInf = NaN"
| "js_add PosInf y = PosInf"
| "js_add NegInf y = NegInf"
| "js_add (Fin a) y = y"

fun js_mul :: "jsnum \<Rightarrow> jsnum \<Rightarrow> jsnum" where
  "js_mul (Fin a) (Fin b) = Fin (a * b)"
| "js_mul NaN y = NaN"
| "js_mul x NaN = NaN"
| "js_mul (Fin a) PosInf = (if a = 0 then NaN else if 0 < a then PosInf else NegInf)"
| "js_mul (Fin a) NegInf = (if a = 0 then NaN else if 0 < a then NegInf else PosInf)"
| "js_mul PosInf (Fin b) = (if b = 0 then NaN else if 0 < b then PosInf else NegInf)"
| "js_mul NegInf (Fin b) = (if b = 0 then NaN else if 0 < b then NegInf else PosInf)"
| "js_mul PosInf PosInf = PosInf"
| "js_mul PosInf NegInf = NegInf"
| "js_mul NegInf PosInf = NegInf"
| "js_mul NegInf NegInf = PosInf"

fun js_div :: "jsnum \<Rightarrow> jsnum \<Rightarrow> jsnum" where
  "js_div (Fin a) (Fin b) =
     (if b \<noteq> 0 then Fin (a / b)
      else if a = 0 then NaN else if 0 < a then PosInf else NegInf)"
| "js_div NaN y = NaN"
| "js_div x NaN = NaN"
| "js_div (Fin a) y = Fin 0"
| "js_div PosInf (Fin b) = (if 0 \<le> b then PosInf else NegInf)"
| "js_div NegInf (Fin b) = (if 0 \<le> b then NegInf else PosInf)"
| "js_div x y = NaN"

text \<open>\<open>Math.round\<close> rounds to the nearest integer, a half towards plus infinity.\<close>

fun js_round :: "jsnum \<Rightarrow> jsnum" where
  "js_round (Fin a) = Fin (of_int \<lfloor>a + 1 / 2\<rfloor>)"
| "js_round x = x"

text \<open>\<open>x <= y\<close>; every comparison with \<open>NaN\<close> is false.\<close>

fun js_le :: "jsnum \<Rightarrow> jsnum \<Rightarrow> bool" where
  "js_le (Fin a) (Fin b) = (a \<le> b)"
| "js_le NaN y = False"
| "js_le x NaN = False"
| "js_le NegInf y = True"
| "js_le x PosInf = True"
| "js_le x y = False"

text \<open>\<open>x >= y\<close>\<close>

definition js_ge :: "jsnum \<Rightarrow> jsnum \<Rightarrow> bool" where
  "js_ge x y = js_le y x"

text \<open>\<open>x || 0\<close> on a number: \<open>0\<close> and \<open>NaN\<close> are falsy.\<close>

definition or_zero :: "jsnum \<Rightarrow> jsnum" where
  "or_zero x = (if x = Fin 0 \<or> x = NaN then Fin 0 else x)"

text \<open>\<open>x || d\<close> on a string that may be undefined: the empty string is falsy.\<close>

fun or_string :: "jsstring option \<Rightarrow> jsstring \<Rightarrow> jsstring" where
  "or_string None d = d"
| "or_string (Some x) d = (if x = [] then d else x)"

subsection \<open>Data\<close>

text \<open>
  The artifacts and the results of the collaborators that \<open>audit_\<close> reads. An entity
  returned by the classification is an object, and \<open>byEntity\<close> is a \<open>Map\<close> keyed by
  that object (or by \<open>undefined\<close>): its identity is a reference \<open>ref\<close> into the store
  \<open>entities\<close>, so two entities with equal names are still two keys.
\<close>

record script =
  scriptId :: jsstring
  url :: jsstring

datatype bundle_sizes =
  SizesError jsstring
  | Sizes (files: "(jsstring \<times> nat) list") (unmappedBytes: nat)

record "bundle" =
  script :: script
  sizes :: bundle_sizes
  sourceURLs :: "jsstring list"

record summary =
  totalBytes :: nat
  wastedBytes :: nat
  wastedPercent :: jsnum
  sourcesWastedBytes :: "(jsstring \<times> nat) list option"

record recognizableEntity =
  name :: jsstring
  homepage :: "jsstring option"

type_synonym ref = nat

record options =
  unusedThreshold :: "jsnum option"
  bundleSourceUnusedThreshold :: "jsnum option"

text \<open>
  \<open>JsUsage\<close> is the list \<open>Object.entries(artifacts.JsUsage)\<close>, in its iteration order;
  the coverage \<open>'cov\<close> and the network record \<open>'rec\<close> are opaque to the audit.
  \<open>getRequestForScript\<close> stands for \<open>getRequestForScript(networkRecords, _)\<close>,
  \<open>estimateTransferSize\<close> for \<open>ByteEfficiencyAudit.estimateTransferSize(_, _, 'Script')\<close>
  and \<open>UnusedJavascriptSummary\<close> for the awaited \<open>UnusedJavascriptSummary.request\<close>, whose
  rejection (\<open>Inl\<close>) rejects \<open>audit_\<close>.
\<close>

record ('cov, 'rec) artifacts =
  JsUsage :: "(jsstring \<times> 'cov) list"
  Scripts :: "script list"
  bundles :: "bundle list"
  byURL :: "jsstring \<Rightarrow> ref option"
  entities :: "ref \<Rightarrow> recognizableEntity"
  getRequestForScript :: "script \<Rightarrow> 'rec option"
  estimateTransferSize :: "'rec \<Rightarrow> nat \<Rightarrow> nat"
  UnusedJavascriptSummary :: "jsstring \<Rightarrow> 'cov \<Rightarrow> bundle option \<Rightarrow> jsstring + summary"

text \<open>The rows of the report.\<close>

record subitem =
  source :: jsstring
  sourceBytes :: jsnum
  sourceWastedBytes :: jsnum

record item =
  url :: jsstring
  totalBytes :: jsnum
  wastedBytes :: jsnum
  wastedPercent :: jsnum
  entity :: "jsstring option"
  subItems :: "subitem list option"

record link =
  "text" :: jsstring
  type :: jsstring
  url :: jsstring

record group =
  url :: link
  groupBy :: jsstring
  entity :: jsstring
  wastedBytes :: jsnum
  totalBytes :: jsnum
  wastedPercent :: jsnum

subsection \<open>The entity map\<close>

text \<open>
  \<open>byEntity\<close> is a JavaScript \<open>Map\<close>: it iterates in the order in which its keys were first
  set, and setting a key that is present replaces the value where it stands.
\<close>

type_synonym ('k, 'v) jsmap = "('k \<times> 'v) list"

definition Map_get :: "('k, 'v) jsmap \<Rightarrow> 'k \<Rightarrow> 'v option" where
  "Map_get m k = map_of m k"

fun Map_set :: "('k, 'v) jsmap \<Rightarrow> 'k \<Rightarrow> 'v \<Rightarrow> ('k, 'v) jsmap" where
  "Map_set [] k v = [(k, v)]"
| "Map_set ((k', v') # m) k v = (if k' = k then (k, v) # m else (k', v') # Map_set m k v)"

definition Map_values :: "('k, 'v) jsmap \<Rightarrow> 'v list" where
  "Map_values m = map snd m"

subsection \<open>The body of the loop of \<open>audit_\<close>\<close>

text \<open>Lines 108-119: the transfer ratio and the item of a script.\<close>

definition transferRatio :: "('cov, 'rec) artifacts \<Rightarrow> 'rec \<Rightarrow> summary \<Rightarrow> jsnum" where
  "transferRatio a networkRecord unusedJsSummary =
     (let transfer = estimateTransferSize a networkRecord (summary.totalBytes unusedJsSummary)
      in js_div (Fin (of_nat transfer)) (Fin (of_nat (summary.totalBytes unusedJsSummary))))"

definition make_item ::
  "('cov, 'rec) artifacts \<Rightarrow> script \<Rightarrow> summary \<Rightarrow> jsnum \<Rightarrow> ref option \<Rightarrow> item" where
  "make_item a script' unusedJsSummary ratio classifiedEntity =
     \<lparr>item.url = script.url script',
      item.totalBytes = js_round (js_mul ratio (Fin (of_nat (summary.totalBytes unusedJsSummary)))),
      item.wastedBytes = js_round (js_mul ratio (Fin (of_nat (summary.wastedBytes unusedJsSummary)))),
      item.wastedPercent = summary.wastedPercent unusedJsSummary,
      item.entity = map_option (\<lambda>r. name (entities a r)) classifiedEntity,
      item.subItems = None\<rparr>"

text \<open>
  Lines 125-139: the entity group of the item, found in the map or made new, takes the
  figures of the item and is set back under the same key. A new group has no
  \<open>wastedPercent\<close> until line 138 assigns it; the record holds \<open>NaN\<close> there, which
  \<open>add_to_group\<close> overwrites before the group is stored.
\<close>

definition new_group :: "('cov, 'rec) artifacts \<Rightarrow> ref option \<Rightarrow> group" where
  "new_group a classifiedEntity =
     \<lparr>group.url =
        \<lparr>text = or_string (map_option (\<lambda>r. name (entities a r)) classifiedEntity) [],
         type = ascii ''link'',
         link.url = or_string (Option.bind classifiedEntity (\<lambda>r. homepage (entities a r)))
                      (ascii ''#'')\<rparr>,
      groupBy = ascii ''entity'',
      group.entity = or_string (map_option (\<lambda>r. name (entities a r)) classifiedEntity) [],
      group.wastedBytes = Fin 0,
      group.totalBytes = Fin 0,
      group.wastedPercent = NaN\<rparr>"

definition add_to_group :: "group \<Rightarrow> item \<Rightarrow> group" where
  "add_to_group entityGroup item' =
     (let totalBytes' = js_add (or_zero (group.totalBytes entityGroup)) (item.totalBytes item');
          wastedBytes' = js_add (or_zero (group.wastedBytes entityGroup)) (item.wastedBytes item')
      in entityGroup
           \<lparr>group.totalBytes := totalBytes',
            group.wastedBytes := wastedBytes',
            group.wastedPercent := js_mul (js_div wastedBytes' totalBytes') (Fin 100)\<rparr>)"

definition rollup ::
  "('cov, 'rec) artifacts \<Rightarrow> (ref option, group) jsmap \<Rightarrow> ref option \<Rightarrow> item
     \<Rightarrow> (ref option, group) jsmap" where
  "rollup a byEntity classifiedEntity item' =
     (let entityGroup =
            (case Map_get byEntity classifiedEntity of
               Some g \<Rightarrow> g
             | None \<Rightarrow> new_group a classifiedEntity)
      in Map_set byEntity classifiedEntity (add_to_group entityGroup item'))"

text \<open>
  Lines 148-159. \<open>Array.prototype.sort\<close> is stable, and so is \<^const>\<open>sort_key\<close>; the
  comparator \<open>(a, b) => b[1] - a[1]\<close> orders by descending wasted bytes. A source that
  \<open>sizes.files\<close> does not have gives \<open>undefined\<close>, and \<open>undefined * transferRatio\<close> is
  \<open>NaN\<close>.
\<close>

record source_size =
  source :: jsstring
  unused :: jsnum
  total :: jsnum

definition unmapped :: jsstring where
  "unmapped = ascii ''(unmapped)''"

definition topUnusedSourceSizes ::
  "(jsstring \<times> nat) list \<Rightarrow> (jsstring \<times> nat) list \<Rightarrow> nat \<Rightarrow> jsnum \<Rightarrow> jsnum
     \<Rightarrow> source_size list" where
  "topUnusedSourceSizes sourcesWastedBytes' files' unmappedBytes' ratio threshold =
     filter (\<lambda>d. js_ge (unused d) threshold)
       (map (\<lambda>(source', unused').
               let total' = (if source' = unmapped then Fin (of_nat unmappedBytes')
                             else (case map_of files' source' of
                                     Some n \<Rightarrow> Fin (of_nat n)
                                   | None \<Rightarrow> NaN))
               in \<lparr>source_size.source = source',
                   unused = js_round (js_mul (Fin (of_nat unused')) ratio),
                   total = js_round (js_mul total' ratio)\<rparr>)
          (take 5 (sort_key (\<lambda>e. - int (snd e)) sourcesWastedBytes')))"

text \<open>
  Lines 141-172: the sub-items of the item, \<open>None\<close> where the loop leaves \<open>item.subItems\<close>
  unset.
\<close>

definition script_subItems ::
  "bundle option \<Rightarrow> summary \<Rightarrow> jsnum \<Rightarrow> jsnum \<Rightarrow> subitem list option" where
  "script_subItems b unusedJsSummary ratio threshold =
     (case b of
        None \<Rightarrow> None
      | Some b' \<Rightarrow>
          (case sizes b' of
             SizesError errorMessage \<Rightarrow> None
           | Sizes files' unmappedBytes' \<Rightarrow>
               (case sourcesWastedBytes unusedJsSummary of
                  None \<Rightarrow> None
                | Some sw \<Rightarrow>
                    (let top = topUnusedSourceSizes sw files' unmappedBytes' ratio threshold;
                         commonSourcePrefix = commonPrefix (sourceURLs b')
                     in Some (map (\<lambda>d.
                                \<lparr>subitem.source =
                                   trimCommonPrefix (source_size.source d) commonSourcePrefix,
                                 sourceBytes = total d,
                                 sourceWastedBytes = unused d\<rparr>) top)))))"

text \<open>
  The state of the loop: the array \<open>items\<close> and the map \<open>byEntity\<close>. The item is pushed
  at line 122 and gets its sub-items afterwards, through the same object; the model
  appends it once, with its sub-items.

  One iteration (lines 96-173). \<open>continue\<close> returns the state as it is; a rejected
  summary request ends the audit with its error.
\<close>

record state =
  items :: "item list"
  byEntity :: "(ref option, group) jsmap"

definition loop_body ::
  "('cov, 'rec) artifacts \<Rightarrow> jsnum \<Rightarrow> jsnum \<Rightarrow> state \<Rightarrow> jsstring \<times> 'cov
     \<Rightarrow> jsstring + state" where
  "loop_body a unusedThreshold' bundleSourceUnusedThreshold' st entry =
     (case entry of (scriptId', scriptCoverage) \<Rightarrow>
      (case find (\<lambda>s. scriptId s = scriptId') (Scripts a) of
         None \<Rightarrow> Inr st
       | Some script' \<Rightarrow>
          (case getRequestForScript a script' of
             None \<Rightarrow> Inr st
           | Some networkRecord \<Rightarrow>
              (let bundle' = find (\<lambda>b. scriptId (script b) = scriptId') (bundles a)
               in case UnusedJavascriptSummary a scriptId' scriptCoverage bundle' of
                    Inl err \<Rightarrow> Inl err
                  | Inr unusedJsSummary \<Rightarrow>
                      if summary.wastedBytes unusedJsSummary = 0
                         \<or> summary.totalBytes unusedJsSummary = 0
                      then Inr st
                      else
                        (let ratio = transferRatio a networkRecord unusedJsSummary;
                             classifiedEntity = byURL a (script.url script');
                             item' = make_item a script' unusedJsSummary ratio classifiedEntity
                         in if js_le (item.wastedBytes item') unusedThreshold' then Inr st
                            else Inr
                              \<lparr>items = items st @
                                 [item'\<lparr>subItems :=
                                    script_subItems bundle' unusedJsSummary ratio
                                      bundleSourceUnusedThreshold'\<rparr>],
                               byEntity = rollup a (byEntity st) classifiedEntity item'\<rparr>)))))"

fun audit_loop ::
  "('cov, 'rec) artifacts \<Rightarrow> jsnum \<Rightarrow> jsnum \<Rightarrow> state \<Rightarrow> (jsstring \<times> 'cov) list
     \<Rightarrow> jsstring + state" where
  "audit_loop a ut bt st [] = Inr st"
| "audit_loop a ut bt st (entry # entries) =
     (case loop_body a ut bt st entry of
        Inl err \<Rightarrow> Inl err
      | Inr st' \<Rightarrow> audit_loop a ut bt st' entries)"

subsection \<open>\<open>audit_\<close>\<close>

text \<open>
  Lines 83-189; \<open>audit'\<close> is the name of \<open>audit_\<close> here. \<open>bundles\<close> and the entity
  classification are inputs, already awaited; the options may be missing as a whole or
  field by field, and the defaults of lines 25-26 fill in. The headings of the product
  are three constants and are left out.
\<close>

definition UNUSED_BYTES_IGNORE_THRESHOLD :: jsnum where
  "UNUSED_BYTES_IGNORE_THRESHOLD = Fin (20 * 1024)"

definition UNUSED_BYTES_IGNORE_BUNDLE_SOURCE_THRESHOLD :: jsnum where
  "UNUSED_BYTES_IGNORE_BUNDLE_SOURCE_THRESHOLD = Fin 512"

definition the_unusedThreshold :: "options option \<Rightarrow> jsnum" where
  "the_unusedThreshold opts =
     (case Option.bind opts unusedThreshold of
        None \<Rightarrow> UNUSED_BYTES_IGNORE_THRESHOLD
      | Some t \<Rightarrow> t)"

definition the_bundleSourceUnusedThreshold :: "options option \<Rightarrow> jsnum" where
  "the_bundleSourceUnusedThreshold opts =
     (case Option.bind opts bundleSourceUnusedThreshold of
        None \<Rightarrow> UNUSED_BYTES_IGNORE_BUNDLE_SOURCE_THRESHOLD
      | Some t \<Rightarrow> t)"

record product =
  items :: "item list"
  groups :: "group list"

definition audit_run :: "('cov, 'rec) artifacts \<Rightarrow> options option \<Rightarrow> jsstring + state" where
  "audit_run a opts =
     audit_loop a (the_unusedThreshold opts) (the_bundleSourceUnusedThreshold opts)
       \<lparr>state.items = [], byEntity = []\<rparr> (JsUsage a)"

definition audit' :: "('cov, 'rec) artifacts \<Rightarrow> options option \<Rightarrow> jsstring + product" where
  "audit' a opts =
     (case audit_run a opts of
        Inl err \<Rightarrow> Inl err
      | Inr st \<Rightarrow> Inr \<lparr>product.items = state.items st, groups = Map_values (byEntity st)\<rparr>)"

subsection \<open>Notions used to state the properties\<close>

text \<open>
  The bundle that line 103 finds for a script, and the item that lines 108-119 build for
  it.
\<close>

definition bundle_for :: "('cov, 'rec) artifacts \<Rightarrow> jsstring \<Rightarrow> bundle option" where
  "bundle_for a scriptId' = find (\<lambda>b. scriptId (script b) = scriptId') (bundles a)"

definition scaled_item :: "('cov, 'rec) artifacts \<Rightarrow> script \<Rightarrow> 'rec \<Rightarrow> summary \<Rightarrow> item" where
  "scaled_item a script' networkRecord unusedJsSummary =
     make_item a script' unusedJsSummary (transferRatio a networkRecord unusedJsSummary)
       (byURL a (script.url script'))"

text \<open>
  The iteration for \<open>entry\<close> gets as far as the summary (line 105): the script and its
  network record are found and the summary request succeeds.
\<close>

definition gets_summary ::
  "('cov, 'rec) artifacts \<Rightarrow> jsstring \<times> 'cov \<Rightarrow> script \<Rightarrow> 'rec \<Rightarrow> summary \<Rightarrow> bool" where
  "gets_summary a entry script' networkRecord unusedJsSummary \<longleftrightarrow>
     find (\<lambda>s. scriptId s = fst entry) (Scripts a) = Some script'
     \<and> getRequestForScript a script' = Some networkRecord
     \<and> UnusedJavascriptSummary a (fst entry) (snd entry) (bundle_for a (fst entry))
         = Inr unusedJsSummary"

text \<open>
  The iteration reaches the inclusion check of line 121: it gets the summary, and the
  summary passes line 106.
\<close>

definition reaches_check ::
  "('cov, 'rec) artifacts \<Rightarrow> jsstring \<times> 'cov \<Rightarrow> script \<Rightarrow> 'rec \<Rightarrow> summary \<Rightarrow> bool" where
  "reaches_check a entry script' networkRecord unusedJsSummary \<longleftrightarrow>
     gets_summary a entry script' networkRecord unusedJsSummary
     \<and> summary.wastedBytes unusedJsSummary \<noteq> 0
     \<and> summary.totalBytes unusedJsSummary \<noteq> 0"

text \<open>
  What one script alone adds to the report: the key of its entity group and its item,
  or nothing. It is read off the loop body run on the empty state.
\<close>

definition contribution ::
  "('cov, 'rec) artifacts \<Rightarrow> jsnum \<Rightarrow> jsnum \<Rightarrow> jsstring \<times> 'cov \<Rightarrow> (ref option \<times> item) list" where
  "contribution a ut bt entry =
     (case loop_body a ut bt \<lparr>state.items = [], byEntity = []\<rparr> entry of
        Inl err \<Rightarrow> []
      | Inr st \<Rightarrow> zip (map fst (byEntity st)) (state.items st))"

text \<open>The elements of a list in the order in which each appears first.\<close>

fun first_occurrences :: "'a list \<Rightarrow> 'a list" where
  "first_occurrences [] = []"
| "first_occurrences (x # xs) = x # first_occurrences (filter (\<lambda>y. y \<noteq> x) xs)"

subsection \<open>Example inputs\<close>

text \<open>
  One script \<open>1\<close> at \<open>a.js\<close>, classified to no entity, whose network record is its
  transfer size and whose summary is given.
\<close>

definition example_script :: script where
  "example_script = \<lparr>scriptId = ascii ''1'', script.url = ascii ''a.js''\<rparr>"

definition example_artifacts ::
  "summary \<Rightarrow> nat \<Rightarrow> bundle list \<Rightarrow> (unit, nat) artifacts" where
  "example_artifacts s transferSize bs =
     \<lparr>JsUsage = [(ascii ''1'', ())],
      Scripts = [example_script],
      bundles = bs,
      byURL = (\<lambda>u. None),
      entities = (\<lambda>r. \<lparr>name = [], homepage = None\<rparr>),
      getRequestForScript = (\<lambda>s. Some transferSize),
      estimateTransferSize = (\<lambda>networkRecord totalBytes'. networkRecord),
      UnusedJavascriptSummary = (\<lambda>scriptId' coverage b. Inr s)\<rparr>"

definition example_summary :: "nat \<Rightarrow> nat \<Rightarrow> summary" where
  "example_summary total' wasted =
     \<lparr>summary.totalBytes = total', summary.wastedBytes = wasted,
      summary.wastedPercent = js_mul (js_div (Fin (of_nat wasted)) (Fin (of_nat total'))) (Fin 100),
      sourcesWastedBytes = None\<rparr>"

definition empty_state :: state where
  "empty_state = \<lparr>state.items = [], byEntity = []\<rparr>"

definition failed_bundle :: "bundle" where
  "failed_bundle =
     \<lparr>script = example_script, sizes = SizesError (ascii ''failed''), sourceURLs = []\<rparr>"

text \<open>
  A bundle of the script with two sources \<open>a.js\<close> and \<open>b.js\<close> of the given sizes, and a
  summary with the given unused bytes of the two.
\<close>

definition bundle_ab :: "nat \<Rightarrow> nat \<Rightarrow> bundle" where
  "bundle_ab sizeA sizeB =
     \<lparr>script = example_script,
      sizes = Sizes [(ascii ''a.js'', sizeA), (ascii ''b.js'', sizeB)] 0,
      sourceURLs = [ascii ''a.js'', ascii ''b.js'']\<rparr>"

definition summary_ab :: "nat \<Rightarrow> nat \<Rightarrow> nat \<Rightarrow> summary" where
  "summary_ab total' unusedA unusedB =
     \<lparr>summary.totalBytes = total', summary.wastedBytes = unusedA + unusedB,
      summary.wastedPercent =
        js_mul (js_div (Fin (of_nat (unusedA + unusedB))) (Fin (of_nat total'))) (Fin 100),
      sourcesWastedBytes = Some [(ascii ''a.js'', unusedA), (ascii ''b.js'', unusedB)]\<rparr>"

text \<open>
  A bundle of six sources and a summary with unused bytes for each of them, with the
  report expected for them; four scripts, two of one entity, one of no entity and one of
  a second entity that has the name of the first, with the rows expected for them.
\<close>

definition acme :: recognizableEntity where
  "acme = \<lparr>name = ascii ''Acme'', homepage = Some (ascii ''acme.io'')\<rparr>"

definition four_scripts :: "(unit, nat) artifacts" where
  "four_scripts =
     \<lparr>JsUsage = [(ascii ''1'', ()), (ascii ''2'', ()), (ascii ''3'', ()), (ascii ''4'', ())],
      Scripts =
        [\<lparr>scriptId = ascii ''1'', script.url = ascii ''a.js''\<rparr>,
         \<lparr>scriptId = ascii ''2'', script.url = ascii ''b.js''\<rparr>,
         \<lparr>scriptId = ascii ''3'', script.url = ascii ''c.js''\<rparr>,
         \<lparr>scriptId = ascii ''4'', script.url = ascii ''d.js''\<rparr>],
      bundles = [],
      byURL = (\<lambda>u. if u = ascii ''a.js'' \<or> u = ascii ''c.js'' then Some 7
                   else if u = ascii ''d.js'' then Some 8 else None),
      entities = (\<lambda>r. acme),
      getRequestForScript = (\<lambda>s. Some 60000),
      estimateTransferSize = (\<lambda>networkRecord totalBytes'. networkRecord),
      UnusedJavascriptSummary = (\<lambda>scriptId' coverage b. Inr (example_summary 60000 30000))\<rparr>"

definition acme_item :: "jsstring \<Rightarrow> jsstring option \<Rightarrow> item" where
  "acme_item u e =
     \<lparr>item.url = u, item.totalBytes = Fin 60000, item.wastedBytes = Fin 30000,
      item.wastedPercent = Fin 50, item.entity = e, subItems = None\<rparr>"

definition acme_group :: "jsstring \<Rightarrow> jsstring \<Rightarrow> rat \<Rightarrow> rat \<Rightarrow> group" where
  "acme_group n h wasted total' =
     \<lparr>group.url = \<lparr>text = n, type = ascii ''link'', link.url = h\<rparr>,
      groupBy = ascii ''entity'', group.entity = n,
      group.wastedBytes = Fin wasted, group.totalBytes = Fin total',
      group.wastedPercent = Fin 50\<rparr>"

definition bundle_six :: "bundle" where
  "bundle_six =
     \<lparr>script = example_script,
      sizes = Sizes [(ascii ''a'', 10000), (ascii ''b'', 10000), (ascii ''c'', 10000),
                     (ascii ''d'', 10000), (ascii ''e'', 10000), (ascii ''f'', 10000)] 40000,
      sourceURLs = [ascii ''a'', ascii ''b'', ascii ''c'', ascii ''d'', ascii ''e'', ascii ''f'']\<rparr>"

definition summary_six :: summary where
  "summary_six =
     \<lparr>summary.totalBytes = 100000, summary.wastedBytes = 21000,
      summary.wastedPercent = Fin 21,
      sourcesWastedBytes =
        Some [(ascii ''a'', 1000), (ascii ''b'', 6000), (ascii ''c'', 3000),
              (ascii ''d'', 5000), (ascii ''e'', 2000), (ascii ''f'', 4000)]\<rparr>"

definition six_subitems :: "subitem list" where
  "six_subitems =
     [\<lparr>subitem.source = ascii ''b'', sourceBytes = Fin 10000, sourceWastedBytes = Fin 6000\<rparr>,
      \<lparr>subitem.source = ascii ''d'', sourceBytes = Fin 10000, sourceWastedBytes = Fin 5000\<rparr>,
      \<lparr>subitem.source = ascii ''f'', sourceBytes = Fin 10000, sourceWastedBytes = Fin 4000\<rparr>,
      \<lparr>subitem.source = ascii ''c'', sourceBytes = Fin 10000, sourceWastedBytes = Fin 3000\<rparr>,
      \<lparr>subitem.source = ascii ''e'', sourceBytes = Fin 10000, sourceWastedBytes = Fin 2000\<rparr>]"

definition six_item :: item where
  "six_item =
     \<lparr>item.url = ascii ''a.js'', item.totalBytes = Fin 100000, item.wastedBytes = Fin 21000,
      item.wastedPercent = Fin 21, item.entity = None, subItems = Some six_subitems\<rparr>"

definition unattributed_group :: "rat \<Rightarrow> rat \<Rightarrow> rat \<Rightarrow> group" where
  "unattributed_group wasted total' percent =
     \<lparr>group.url = \<lparr>text = [], type = ascii ''link'', link.url = ascii ''#''\<rparr>,
      groupBy = ascii ''entity'', group.entity = [],
      group.wastedBytes = Fin wasted, group.totalBytes = Fin total',
      group.wastedPercent = Fin percent\<rparr>"


section \<open>Properties\<close>

lemmas example_defs =
  example_script_def example_artifacts_def example_summary_def empty_state_def
  reaches_check_def gets_summary_def bundle_for_def scaled_item_def make_item_def
  transferRatio_def ascii_def

lemmas subitem_defs =
  bundle_ab_def summary_ab_def script_subItems_def topUnusedSourceSizes_def unmapped_def
  trimCommonPrefix_def js_ge_def shorten.simps

lemmas audit_defs =
  audit'_def audit_run_def loop_body_def the_unusedThreshold_def
  the_bundleSourceUnusedThreshold_def UNUSED_BYTES_IGNORE_THRESHOLD_def
  UNUSED_BYTES_IGNORE_BUNDLE_SOURCE_THRESHOLD_def rollup_def Map_get_def Map_values_def
  new_group_def add_to_group_def or_zero_def

subsection \<open>The prefix trimmer\<close>

lemma foldl_max_upper:
  "\<forall>x\<in>set (a # xs). (x::'a::linorder) \<le> foldl (\<lambda>a b. if a > b then a else b) a xs"
proof (induction xs arbitrary: a)
  case Nil
  then show ?case by simp
next
  case (Cons y ys)
  show ?case
    using Cons.IH [of "if a > y then a else y"] by (auto split: if_splits)
qed

lemma foldl_min_lower:
  "\<forall>x\<in>set (a # xs). foldl (\<lambda>a b. if a > b then b else a) a xs \<le> (x::'a::linorder)"
proof (induction xs arbitrary: a)
  case Nil
  then show ?case by simp
next
  case (Cons y ys)
  show ?case
    using Cons.IH [of "if a > y then y else a"] by (auto split: if_splits)
qed

lemma foldl_max_mem:
  "foldl (\<lambda>a b. if a > b then a else b) a xs \<in> set ((a::'a::linorder) # xs)"
  by (induction xs arbitrary: a) (auto split: if_splits)

lemma foldl_min_mem:
  "foldl (\<lambda>a b. if a > b then b else a) a xs \<in> set ((a::'a::linorder) # xs)"
  by (induction xs arbitrary: a) (auto split: if_splits)

text \<open>
  What makes the two extremes enough: a common prefix of the smallest and of the largest
  string is a prefix of every string in between.
\<close>

lemma prefix_between:
  fixes p :: "'a::linorder list"
  shows "prefix p lo \<Longrightarrow> prefix p hi \<Longrightarrow> lo \<le> s \<Longrightarrow> s \<le> hi \<Longrightarrow> prefix p s"
proof (induction p arbitrary: lo hi s)
  case Nil
  then show ?case by simp
next
  case (Cons x p)
  from Cons.prems(1) obtain lo' where lo: "lo = x # lo'" and p1: "prefix p lo'"
    by (cases lo) auto
  from Cons.prems(2) obtain hi' where hi: "hi = x # hi'" and p2: "prefix p hi'"
    by (cases hi) auto
  from Cons.prems(3) lo obtain y s' where s: "s = y # s'"
    by (cases s) auto
  from Cons.prems(3,4) lo hi s have "y = x" "lo' \<le> s'" "s' \<le> hi'"
    by auto
  with Cons.IH [OF p1 p2] s show ?case by simp
qed

lemma shorten_prefix_max: "prefix (shorten maxWord pre) maxWord"
  by (induction maxWord pre rule: shorten.induct) (subst shorten.simps, simp)

lemma shorten_prefix_pre: "prefix (shorten maxWord pre) pre"
proof (induction maxWord pre rule: shorten.induct)
  case (1 maxWord pre)
  show ?case
  proof (cases "prefix pre maxWord")
    case True
    then show ?thesis by (subst shorten.simps) simp
  next
    case False
    have "prefix (butlast pre) pre"
      by (simp add: prefixeq_butlast)
    with 1 [OF False] False show ?thesis
      by (subst shorten.simps) (auto intro: prefix_order.trans)
  qed
qed

lemma shorten_longest:
  "prefix q pre \<Longrightarrow> prefix q maxWord \<Longrightarrow> prefix q (shorten maxWord pre)"
proof (induction maxWord pre rule: shorten.induct)
  case (1 maxWord pre)
  show ?case
  proof (cases "prefix pre maxWord")
    case True
    with 1 show ?thesis by (subst shorten.simps) simp
  next
    case False
    with "1.prems" have "q \<noteq> pre" by auto
    with "1.prems"(1) have "prefix q (butlast pre)"
      by (metis prefix_snoc append_butlast_last_id prefix_bot.extremum_uniqueI)
    with 1 False show ?thesis
      by (subst shorten.simps) simp
  qed
qed

text \<open>
  C6. For every list of strings \<open>S\<close>, \<open>commonPrefix S\<close> is a prefix of every element of
  \<open>S\<close>; when \<open>S\<close> is not empty it is the longest one: every common prefix of the elements
  is a prefix of it, and no code unit can be appended to it without some element failing
  to start with the result. \<open>commonPrefix\<close> of the empty list is the empty string.
\<close>

theorem commonPrefix_longest_common_prefix:
  fixes S :: "'a::linorder list list"
  shows "(\<forall>s\<in>set S. prefix (commonPrefix S) s)
       \<and> (S \<noteq> [] \<longrightarrow> (\<forall>q. (\<forall>s\<in>set S. prefix q s) \<longrightarrow> prefix q (commonPrefix S)))
       \<and> (S \<noteq> [] \<longrightarrow> (\<forall>c. \<exists>s\<in>set S. \<not> prefix (commonPrefix S @ [c]) s))
       \<and> commonPrefix ([] :: 'a list list) = []"
proof (cases S)
  case Nil
  then show ?thesis by simp
next
  case (Cons a xs)
  define hi where "hi = foldl (\<lambda>a b. if a > b then a else b) a xs"
  define lo where "lo = foldl (\<lambda>a b. if a > b then b else a) a xs"
  have cp: "commonPrefix S = shorten hi lo"
    by (simp add: Cons hi_def lo_def)
  have hi_mem: "hi \<in> set S" and lo_mem: "lo \<in> set S"
    using foldl_max_mem [of a xs] foldl_min_mem [of a xs] by (simp_all add: Cons hi_def lo_def)
  have all: "prefix (commonPrefix S) s" if "s \<in> set S" for s
  proof -
    from that have "lo \<le> s" "s \<le> hi"
      using foldl_max_upper [of a xs] foldl_min_lower [of a xs]
      by (auto simp: Cons hi_def lo_def)
    then show ?thesis
      unfolding cp using shorten_prefix_pre shorten_prefix_max by (rule prefix_between [rotated 2])
  qed
  have longest: "prefix q (commonPrefix S)" if "\<forall>s\<in>set S. prefix q s" for q
    unfolding cp using that hi_mem lo_mem by (intro shorten_longest) auto
  have no_more: "\<exists>s\<in>set S. \<not> prefix (commonPrefix S @ [c]) s" for c
  proof (rule ccontr)
    assume "\<not> ?thesis"
    then have "prefix (commonPrefix S @ [c]) (commonPrefix S)"
      using longest by blast
    then show False by (auto simp: prefix_def)
  qed
  from all longest no_more show ?thesis by (simp add: Cons)
qed

theorem commonPrefix_longest_common_prefix_witness:
  "commonPrefix [ascii ''src/a.js'', ascii ''src/b.js'', ascii ''src/ab/c.js''] = ascii ''src/''
   \<and> prefix (ascii ''src/'') (ascii ''src/a.js'')
   \<and> prefix (ascii ''src/'') (ascii ''src/b.js'')
   \<and> prefix (ascii ''src/'') (ascii ''src/ab/c.js'')
   \<and> \<not> prefix (ascii ''src/a'') (ascii ''src/b.js'')"
  using commonPrefix_longest_common_prefix
          [of "[ascii ''src/a.js'', ascii ''src/b.js'', ascii ''src/ab/c.js'']"]
  by (simp add: ascii_def shorten.simps)

subsection \<open>One iteration of the loop\<close>

lemma floor_rat_divide_numeral [simp]:
  "\<lfloor>(numeral a :: rat) / numeral b\<rfloor> = numeral a div numeral b"
  using floor_divide_of_int_eq [of "numeral a" "numeral b", where ?'a = rat] by simp

lemma floor_rat_one_divide_numeral [simp]:
  "\<lfloor>(1 :: rat) / numeral b\<rfloor> = 1 div numeral b"
  using floor_divide_of_int_eq [of 1 "numeral b", where ?'a = rat] by simp

lemma transferRatio_Fin:
  "summary.totalBytes s \<noteq> 0 \<Longrightarrow>
   transferRatio a r s =
     Fin (of_nat (estimateTransferSize a r (summary.totalBytes s)) / of_nat (summary.totalBytes s))"
  by (simp add: transferRatio_def)

lemma transferRatio_nonneg:
  "summary.totalBytes s \<noteq> 0 \<Longrightarrow> \<exists>q. 0 \<le> q \<and> transferRatio a r s = Fin q"
  by (simp add: transferRatio_Fin)

lemma loop_body_reached:
  assumes "reaches_check a entry script' networkRecord s"
  shows "loop_body a ut bt st entry =
     (if js_le (item.wastedBytes (scaled_item a script' networkRecord s)) ut then Inr st
      else Inr \<lparr>state.items = state.items st @
                  [(scaled_item a script' networkRecord s)
                     \<lparr>subItems := script_subItems (bundle_for a (fst entry)) s
                                    (transferRatio a networkRecord s) bt\<rparr>],
                byEntity = rollup a (byEntity st) (byURL a (script.url script'))
                             (scaled_item a script' networkRecord s)\<rparr>)"
  using assms
  by (cases entry)
     (simp add: reaches_check_def gets_summary_def loop_body_def bundle_for_def scaled_item_def
        Let_def)

lemma loop_body_cases:
  assumes "loop_body a ut bt st entry = Inr st'"
  shows "st' = st \<or>
     (\<exists>script' networkRecord s.
        reaches_check a entry script' networkRecord s
        \<and> \<not> js_le (item.wastedBytes (scaled_item a script' networkRecord s)) ut
        \<and> st' = \<lparr>state.items = state.items st @
                  [(scaled_item a script' networkRecord s)
                     \<lparr>subItems := script_subItems (bundle_for a (fst entry)) s
                                    (transferRatio a networkRecord s) bt\<rparr>],
                byEntity = rollup a (byEntity st) (byURL a (script.url script'))
                             (scaled_item a script' networkRecord s)\<rparr>)"
  using assms
  by (cases entry)
     (auto simp: reaches_check_def gets_summary_def loop_body_def bundle_for_def scaled_item_def
        Let_def split: option.splits sum.splits if_splits)

lemma scaled_item_Fin:
  assumes "summary.totalBytes s \<noteq> 0"
  shows "item.totalBytes (scaled_item a script' r s) =
           Fin (of_int \<lfloor>(of_nat (estimateTransferSize a r (summary.totalBytes s)) :: rat)
                        / of_nat (summary.totalBytes s) * of_nat (summary.totalBytes s) + 1 / 2\<rfloor>)"
    and "item.wastedBytes (scaled_item a script' r s) =
           Fin (of_int \<lfloor>(of_nat (estimateTransferSize a r (summary.totalBytes s)) :: rat)
                        / of_nat (summary.totalBytes s) * of_nat (summary.wastedBytes s) + 1 / 2\<rfloor>)"
    and "item.wastedPercent (scaled_item a script' r s) = summary.wastedPercent s"
    and "item.subItems (scaled_item a script' r s) = None"
  using assms by (simp_all add: scaled_item_def make_item_def transferRatio_Fin)



lemma floor_half_mono: "(x::rat) \<le> y \<Longrightarrow> \<lfloor>x + 1 / 2\<rfloor> \<le> \<lfloor>y + 1 / 2\<rfloor>"
  by (simp add: floor_mono)

text \<open>
  C10. A script whose summary has \<open>wastedBytes = 0\<close> or \<open>totalBytes = 0\<close> is skipped
  before any scaling: the iteration returns the state as it was. An iteration goes on to
  the scaling only with \<open>totalBytes \<noteq> 0\<close>, where the transfer ratio is the finite quotient
  of the transfer size by \<open>totalBytes\<close>: the division of line 110 never has a zero
  denominator.
\<close>

theorem zero_summary_skipped_before_scaling:
  assumes "gets_summary a entry script' networkRecord s"
  shows "(summary.wastedBytes s = 0 \<or> summary.totalBytes s = 0
            \<longrightarrow> loop_body a ut bt st entry = Inr st)
       \<and> (reaches_check a entry script' networkRecord s
            \<longrightarrow> summary.totalBytes s \<noteq> 0
              \<and> transferRatio a networkRecord s =
                  Fin (of_nat (estimateTransferSize a networkRecord (summary.totalBytes s))
                       / of_nat (summary.totalBytes s)))
       \<and> (loop_body a ut bt st entry \<noteq> Inr st
            \<longrightarrow> reaches_check a entry script' networkRecord s)"
proof -
  have skip: "loop_body a ut bt st entry = Inr st"
    if "summary.wastedBytes s = 0 \<or> summary.totalBytes s = 0"
    using assms that
    by (cases entry) (auto simp: gets_summary_def loop_body_def bundle_for_def)
  have "reaches_check a entry script' networkRecord s"
    if "loop_body a ut bt st entry \<noteq> Inr st"
  proof -
    from skip that have "\<not> (summary.wastedBytes s = 0 \<or> summary.totalBytes s = 0)"
      by blast
    with assms show ?thesis
      by (simp add: reaches_check_def)
  qed
  with skip show ?thesis
    by (auto simp: reaches_check_def transferRatio_Fin)
qed

theorem zero_summary_skipped_before_scaling_witness:
  "gets_summary (example_artifacts (example_summary 0 0) 100000 []) (ascii ''1'', ())
     example_script 100000 (example_summary 0 0)
   \<and> summary.totalBytes (example_summary 0 0) = 0
   \<and> loop_body (example_artifacts (example_summary 0 0) 100000 [])
       (Fin 20480) (Fin 512) empty_state (ascii ''1'', ()) = Inr empty_state"
  using zero_summary_skipped_before_scaling
          [of "example_artifacts (example_summary 0 0) 100000 []" "(ascii ''1'', ())"
              example_script 100000 "example_summary 0 0" "Fin 20480" "Fin 512" empty_state]
  by (simp add: example_defs)



text \<open>
  C2. For every script that reaches the inclusion check of line 121: if the scaled
  \<open>wastedBytes\<close> of its item equals the threshold, the iteration leaves items and groups
  as they were; if it exceeds the threshold by one byte or more, the item is pushed and
  added to its entity group. The figure compared is the scaled one.
\<close>

theorem threshold_boundary:
  assumes "reaches_check a entry script' networkRecord s"
  shows "(item.wastedBytes (scaled_item a script' networkRecord s) = ut
            \<longrightarrow> loop_body a ut bt st entry = Inr st)
       \<and> (\<forall>w t. item.wastedBytes (scaled_item a script' networkRecord s) = Fin w
                 \<and> ut = Fin t \<and> t + 1 \<le> w
            \<longrightarrow> loop_body a ut bt st entry =
                  Inr \<lparr>state.items = state.items st @
                         [(scaled_item a script' networkRecord s)
                            \<lparr>subItems := script_subItems (bundle_for a (fst entry)) s
                                           (transferRatio a networkRecord s) bt\<rparr>],
                       byEntity = rollup a (byEntity st) (byURL a (script.url script'))
                                    (scaled_item a script' networkRecord s)\<rparr>)"
proof -
  from assms have "summary.totalBytes s \<noteq> 0"
    by (simp add: reaches_check_def)
  from scaled_item_Fin(2) [OF this, of a script' networkRecord]
  obtain w where w: "item.wastedBytes (scaled_item a script' networkRecord s) = Fin w"
    by blast
  show ?thesis
    unfolding loop_body_reached [OF assms] using w by auto
qed

theorem threshold_boundary_witness:
  "reaches_check (example_artifacts (example_summary 100000 20480) 100000 []) (ascii ''1'', ())
     example_script 100000 (example_summary 100000 20480)
   \<and> item.wastedBytes
       (scaled_item (example_artifacts (example_summary 100000 20480) 100000 []) example_script
          100000 (example_summary 100000 20480)) = Fin 20480
   \<and> loop_body (example_artifacts (example_summary 100000 20480) 100000 [])
       (Fin 20480) (Fin 512) empty_state (ascii ''1'', ()) = Inr empty_state
   \<and> reaches_check (example_artifacts (example_summary 100000 20481) 100000 []) (ascii ''1'', ())
       example_script 100000 (example_summary 100000 20481)
   \<and> item.wastedBytes
       (scaled_item (example_artifacts (example_summary 100000 20481) 100000 []) example_script
          100000 (example_summary 100000 20481)) = Fin 20481
   \<and> (case loop_body (example_artifacts (example_summary 100000 20481) 100000 [])
              (Fin 20480) (Fin 512) empty_state (ascii ''1'', ()) of
         Inl err \<Rightarrow> []
       | Inr st \<Rightarrow> map item.wastedBytes (state.items st)) = [Fin 20481]"
  using threshold_boundary
          [of "example_artifacts (example_summary 100000 20480) 100000 []" "(ascii ''1'', ())"
              example_script 100000 "example_summary 100000 20480" "Fin 20480" "Fin 512"
              empty_state]
        threshold_boundary
          [of "example_artifacts (example_summary 100000 20481) 100000 []" "(ascii ''1'', ())"
              example_script 100000 "example_summary 100000 20481" "Fin 20480" "Fin 512"
              empty_state]
  by (simp add: example_defs)


text \<open>
  C7. For every script above the threshold whose bundle is absent, or whose bundle
  has an error in place of its sizes, the item is pushed and added to its entity group
  all the same, and it has no sub-items.
\<close>

theorem failed_bundle_still_reported:
  assumes "reaches_check a entry script' networkRecord s"
    and "\<not> js_le (item.wastedBytes (scaled_item a script' networkRecord s)) ut"
    and "bundle_for a (fst entry) = None
         \<or> (\<exists>b errorMessage. bundle_for a (fst entry) = Some b \<and> sizes b = SizesError errorMessage)"
  shows "loop_body a ut bt st entry =
           Inr \<lparr>state.items = state.items st @ [scaled_item a script' networkRecord s],
                byEntity = rollup a (byEntity st) (byURL a (script.url script'))
                             (scaled_item a script' networkRecord s)\<rparr>
       \<and> item.subItems (scaled_item a script' networkRecord s) = None"
proof -
  have none: "item.subItems (scaled_item a script' networkRecord s) = None"
    by (simp add: scaled_item_def make_item_def)
  from assms(3)
  have "script_subItems (bundle_for a (fst entry)) s (transferRatio a networkRecord s) bt = None"
    by (auto simp: script_subItems_def)
  moreover have "(scaled_item a script' networkRecord s)\<lparr>subItems := None\<rparr>
      = scaled_item a script' networkRecord s"
    by (simp add: scaled_item_def make_item_def)
  ultimately show ?thesis
    unfolding loop_body_reached [OF assms(1)] using assms(2) none by simp
qed

theorem failed_bundle_still_reported_witness:
  "reaches_check (example_artifacts (example_summary 100000 50000) 100000 [failed_bundle])
     (ascii ''1'', ()) example_script 100000 (example_summary 100000 50000)
   \<and> bundle_for (example_artifacts (example_summary 100000 50000) 100000 [failed_bundle])
       (ascii ''1'') = Some failed_bundle
   \<and> sizes failed_bundle = SizesError (ascii ''failed'')
   \<and> loop_body (example_artifacts (example_summary 100000 50000) 100000 [failed_bundle])
       (Fin 20480) (Fin 512) empty_state (ascii ''1'', ()) =
     Inr \<lparr>state.items =
            [\<lparr>item.url = ascii ''a.js'', item.totalBytes = Fin 100000,
              item.wastedBytes = Fin 50000, item.wastedPercent = Fin 50,
              item.entity = None, subItems = None\<rparr>],
          byEntity =
            [(None,
              \<lparr>group.url = \<lparr>text = [], type = ascii ''link'', link.url = ascii ''#''\<rparr>,
               groupBy = ascii ''entity'', group.entity = [],
               group.wastedBytes = Fin 50000, group.totalBytes = Fin 100000,
               group.wastedPercent = Fin 50\<rparr>)]\<rparr>"
  using failed_bundle_still_reported
          [of "example_artifacts (example_summary 100000 50000) 100000 [failed_bundle]"
              "(ascii ''1'', ())" example_script 100000 "example_summary 100000 50000"
              "Fin 20480" "Fin 512" empty_state]
  by (simp add: example_defs failed_bundle_def rollup_def Map_get_def new_group_def
        add_to_group_def or_zero_def)

subsection \<open>Sub-items\<close>

lemma script_subItems_Some:
  assumes "sizes b = Sizes files' unmappedBytes'" and "sourcesWastedBytes s = Some sw"
  shows "script_subItems (Some b) s ratio threshold =
           Some (map (\<lambda>d. \<lparr>subitem.source =
                               trimCommonPrefix (source_size.source d) (commonPrefix (sourceURLs b)),
                             sourceBytes = total d, sourceWastedBytes = unused d\<rparr>)
                   (topUnusedSourceSizes sw files' unmappedBytes' ratio threshold))"
  using assms by (simp add: script_subItems_def)

lemma unused_topUnusedSourceSizes:
  "map unused (topUnusedSourceSizes sw files' unmappedBytes' ratio threshold) =
     filter (\<lambda>u. js_ge u threshold)
       (map (\<lambda>e. js_round (js_mul (Fin (of_nat (snd e))) ratio))
          (take 5 (sort_key (\<lambda>e. - int (snd e)) sw)))"
  by (simp add: topUnusedSourceSizes_def filter_map comp_def case_prod_beta Let_def)

text \<open>
  C1, amended. For a script with a bundle whose sizes were computed and a summary with
  \<open>sourcesWastedBytes\<close>, the candidates are the five entries with the most wasted bytes;
  the sub-items are, in the same order, the candidates whose scaled and rounded wasted bytes
  are at or above \<open>bundleSourceUnusedThreshold\<close>. A candidate strictly below the threshold
  is dropped, one equal to it is kept.
\<close>

theorem subitems_threshold:
  assumes "sizes b = Sizes files' unmappedBytes'" and "sourcesWastedBytes s = Some sw"
  shows "\<exists>subs. script_subItems (Some b) s ratio threshold = Some subs
           \<and> map sourceWastedBytes subs =
               filter (\<lambda>u. js_ge u threshold)
                 (map (\<lambda>e. js_round (js_mul (Fin (of_nat (snd e))) ratio))
                    (take 5 (sort_key (\<lambda>e. - int (snd e)) sw)))
           \<and> (\<forall>d\<in>set subs. js_ge (sourceWastedBytes d) threshold)"
proof (intro exI conjI)
  show "script_subItems (Some b) s ratio threshold =
          Some (map (\<lambda>d. \<lparr>subitem.source =
                              trimCommonPrefix (source_size.source d) (commonPrefix (sourceURLs b)),
                            sourceBytes = total d, sourceWastedBytes = unused d\<rparr>)
                  (topUnusedSourceSizes sw files' unmappedBytes' ratio threshold))"
    by (rule script_subItems_Some [OF assms])
  show "map sourceWastedBytes
          (map (\<lambda>d. \<lparr>subitem.source =
                       trimCommonPrefix (source_size.source d) (commonPrefix (sourceURLs b)),
                     sourceBytes = total d, sourceWastedBytes = unused d\<rparr>)
             (topUnusedSourceSizes sw files' unmappedBytes' ratio threshold))
        = filter (\<lambda>u. js_ge u threshold)
            (map (\<lambda>e. js_round (js_mul (Fin (of_nat (snd e))) ratio))
               (take 5 (sort_key (\<lambda>e. - int (snd e)) sw)))"
    by (simp add: comp_def unused_topUnusedSourceSizes)
  show "\<forall>d\<in>set (map (\<lambda>d. \<lparr>subitem.source =
                       trimCommonPrefix (source_size.source d) (commonPrefix (sourceURLs b)),
                     sourceBytes = total d, sourceWastedBytes = unused d\<rparr>)
             (topUnusedSourceSizes sw files' unmappedBytes' ratio threshold)).
          js_ge (sourceWastedBytes d) threshold"
    by (simp add: topUnusedSourceSizes_def)
qed

theorem subitems_threshold_witness:
  "sizes (bundle_ab 1000 9000) = Sizes [(ascii ''a.js'', 1000), (ascii ''b.js'', 9000)] 0
   \<and> sourcesWastedBytes (summary_ab 10000 100 8000)
       = Some [(ascii ''a.js'', 100), (ascii ''b.js'', 8000)]
   \<and> script_subItems (Some (bundle_ab 1000 9000)) (summary_ab 10000 100 8000) (Fin 1) (Fin 512)
       = Some [\<lparr>subitem.source = ascii ''b.js'', sourceBytes = Fin 9000,
                 sourceWastedBytes = Fin 8000\<rparr>]"
  using subitems_threshold
          [of "bundle_ab 1000 9000" "[(ascii ''a.js'', 1000), (ascii ''b.js'', 9000)]" 0
              "summary_ab 10000 100 8000" "[(ascii ''a.js'', 100), (ascii ''b.js'', 8000)]"
              "Fin 1" "Fin 512"]
  by (simp add: subitem_defs ascii_def)

text \<open>
  As C1 is worded, an entry whose scaled value is exactly the threshold would be
  dropped. With the default options, the source \<open>a.js\<close> with 512 unused bytes and transfer
  ratio 1 is a sub-item of the report.
\<close>

theorem subitem_at_threshold_retained:
  "audit' (example_artifacts (summary_ab 100000 512 30000) 100000 [bundle_ab 1000 99000]) None
     = Inr \<lparr>product.items =
              [\<lparr>item.url = ascii ''a.js'', item.totalBytes = Fin 100000,
                item.wastedBytes = Fin 30512, item.wastedPercent = Fin (3814 / 125),
                item.entity = None,
                subItems = Some [\<lparr>subitem.source = ascii ''b.js'', sourceBytes = Fin 99000,
                                  sourceWastedBytes = Fin 30000\<rparr>,
                                 \<lparr>subitem.source = ascii ''a.js'', sourceBytes = Fin 1000,
                                  sourceWastedBytes = Fin 512\<rparr>]\<rparr>],
            groups =
              [\<lparr>group.url = \<lparr>text = [], type = ascii ''link'', link.url = ascii ''#''\<rparr>,
                groupBy = ascii ''entity'', group.entity = [],
                group.wastedBytes = Fin 30512, group.totalBytes = Fin 100000,
                group.wastedPercent = Fin (3814 / 125)\<rparr>]\<rparr>"
  by (simp add: audit_defs example_defs subitem_defs)

subsection \<open>The whole loop\<close>

lemma sorted_unused_candidates:
  assumes "0 \<le> q"
  shows "sorted_wrt (\<lambda>x y. js_ge x y)
           (map (\<lambda>e. js_round (js_mul (Fin (of_nat (snd e))) (Fin q)))
              (take 5 (sort_key (\<lambda>e. - int (snd e)) (sw :: (jsstring \<times> nat) list))))"
proof -
  have "sorted (map (\<lambda>e. - int (snd e)) (sort_key (\<lambda>e. - int (snd e)) sw))"
    by (rule sorted_sort_key)
  then have "sorted_wrt (\<lambda>x y. - int (snd x) \<le> - int (snd y)) (sort_key (\<lambda>e. - int (snd e)) sw)"
    by (simp add: sorted_map)
  then have "sorted_wrt (\<lambda>x y. - int (snd x) \<le> - int (snd y))
      (take 5 (sort_key (\<lambda>e. - int (snd e)) sw))"
    by (rule sorted_wrt_take)
  then have "sorted_wrt
      (\<lambda>x y. js_ge (js_round (js_mul (Fin (of_nat (snd x))) (Fin q)))
                    (js_round (js_mul (Fin (of_nat (snd y))) (Fin q))))
      (take 5 (sort_key (\<lambda>e. - int (snd e)) sw))"
  proof (rule sorted_wrt_mono_rel [rotated])
    fix x y :: "jsstring \<times> nat"
    assume "- int (snd x) \<le> - int (snd y)"
    then have "(of_nat (snd y) :: rat) \<le> of_nat (snd x)"
      by simp
    with assms have "(of_nat (snd y) :: rat) * q \<le> of_nat (snd x) * q"
      by (simp add: mult_right_mono)
    then show "js_ge (js_round (js_mul (Fin (of_nat (snd x))) (Fin q)))
                     (js_round (js_mul (Fin (of_nat (snd y))) (Fin q)))"
      by (simp add: js_ge_def floor_half_mono)
  qed
  then show ?thesis
    by (simp add: sorted_wrt_map)
qed

lemma script_subItems_capped_sorted:
  assumes "script_subItems b s (Fin q) threshold = Some subs" and "0 \<le> q"
  shows "length subs \<le> 5 \<and> sorted_wrt (\<lambda>x y. js_ge x y) (map sourceWastedBytes subs)"
proof -
  from assms(1) obtain b' files' unmappedBytes' sw
    where b: "b = Some b'" and sz: "sizes b' = Sizes files' unmappedBytes'"
      and sw: "sourcesWastedBytes s = Some sw"
    by (auto simp: script_subItems_def split: option.splits bundle_sizes.splits)
  from script_subItems_Some [OF sz sw, of "Fin q" threshold] assms(1) b
  have "map sourceWastedBytes subs =
      map unused (topUnusedSourceSizes sw files' unmappedBytes' (Fin q) threshold)"
    by (auto simp: comp_def)
  then have vals: "map sourceWastedBytes subs =
      filter (\<lambda>u. js_ge u threshold)
        (map (\<lambda>e. js_round (js_mul (Fin (of_nat (snd e))) (Fin q)))
           (take 5 (sort_key (\<lambda>e. - int (snd e)) sw)))"
    by (simp add: unused_topUnusedSourceSizes)
  have "length (map sourceWastedBytes subs) \<le> 5"
    unfolding vals
    by (rule order_trans [OF length_filter_le]) simp
  moreover have "sorted_wrt (\<lambda>x y. js_ge x y) (map sourceWastedBytes subs)"
    unfolding vals by (intro sorted_wrt_filter sorted_unused_candidates assms(2))
  ultimately show ?thesis by simp
qed

lemma audit_loop_items_invariant:
  assumes "audit_loop a ut bt st es = Inr st'"
    and "\<forall>it\<in>set (state.items st). P it"
    and step: "\<And>e script' r s. e \<in> set es \<Longrightarrow> reaches_check a e script' r s \<Longrightarrow>
           P ((scaled_item a script' r s)
                \<lparr>subItems := script_subItems (bundle_for a (fst e)) s (transferRatio a r s) bt\<rparr>)"
  shows "\<forall>it\<in>set (state.items st'). P it"
  using assms
proof (induction es arbitrary: st)
  case Nil
  then show ?case by simp
next
  case (Cons e es)
  from Cons.prems(1) obtain st1 where body: "loop_body a ut bt st e = Inr st1"
    and rest: "audit_loop a ut bt st1 es = Inr st'"
    by (auto split: sum.splits)
  have "\<forall>it\<in>set (state.items st1). P it"
    using loop_body_cases [OF body] Cons.prems(2) Cons.prems(3) [of e]
    by auto
  with Cons.IH [OF rest] Cons.prems(3) show ?case
    by simp
qed

lemma audit'_items:
  assumes "audit' a opts = Inr out"
  shows "\<exists>st. audit_run a opts = Inr st \<and> product.items out = state.items st
             \<and> groups out = map snd (byEntity st)"
  using assms by (auto simp: audit'_def Map_values_def split: sum.splits)

text \<open>
  C9. For every item of the report, its sub-items are at most five and their wasted bytes
  are in descending (non-increasing) order.
\<close>

theorem subitems_capped_sorted:
  assumes "audit' a opts = Inr out"
    and "it \<in> set (product.items out)"
    and "item.subItems it = Some subs"
  shows "length subs \<le> 5 \<and> sorted_wrt (\<lambda>x y. js_ge x y) (map sourceWastedBytes subs)"
proof -
  from audit'_items [OF assms(1)] obtain st
    where run: "audit_run a opts = Inr st" and items: "product.items out = state.items st"
    by blast
  have "\<forall>it\<in>set (state.items st). \<forall>subs. item.subItems it = Some subs \<longrightarrow>
      length subs \<le> 5 \<and> sorted_wrt (\<lambda>x y. js_ge x y) (map sourceWastedBytes subs)"
  proof (rule audit_loop_items_invariant [OF run [unfolded audit_run_def]])
    show "\<forall>it\<in>set (state.items \<lparr>state.items = [], byEntity = []\<rparr>).
        \<forall>subs. item.subItems it = Some subs \<longrightarrow>
          length subs \<le> 5 \<and> sorted_wrt (\<lambda>x y. js_ge x y) (map sourceWastedBytes subs)"
      by simp
  next
    fix e script' r s
    assume "reaches_check a e script' r s"
    then have "summary.totalBytes s \<noteq> 0"
      by (simp add: reaches_check_def)
    from transferRatio_nonneg [OF this, of a r]
    obtain q where q: "0 \<le> q" "transferRatio a r s = Fin q"
      by blast
    show "\<forall>subs. item.subItems
              ((scaled_item a script' r s)
                 \<lparr>subItems := script_subItems (bundle_for a (fst e)) s (transferRatio a r s)
                                (the_bundleSourceUnusedThreshold opts)\<rparr>) = Some subs \<longrightarrow>
          length subs \<le> 5 \<and> sorted_wrt (\<lambda>x y. js_ge x y) (map sourceWastedBytes subs)"
      using script_subItems_capped_sorted [OF _ q(1)] q(2) by simp
  qed
  with assms(2,3) items show ?thesis
    by simp
qed

theorem subitems_capped_sorted_witness:
  "audit' (example_artifacts summary_six 100000 [bundle_six]) None
     = Inr \<lparr>product.items = [six_item], groups = [unattributed_group 21000 100000 21]\<rparr>
   \<and> item.subItems six_item = Some six_subitems
   \<and> length six_subitems = 5
   \<and> map sourceWastedBytes six_subitems = [Fin 6000, Fin 5000, Fin 4000, Fin 3000, Fin 2000]
   \<and> sorted_wrt (\<lambda>x y. js_ge x y) (map sourceWastedBytes six_subitems)"
proof -
  have run: "audit' (example_artifacts summary_six 100000 [bundle_six]) None
      = Inr \<lparr>product.items = [six_item], groups = [unattributed_group 21000 100000 21]\<rparr>"
    by (simp add: audit_defs example_defs bundle_six_def summary_six_def six_item_def
          six_subitems_def unattributed_group_def script_subItems_def
          topUnusedSourceSizes_def unmapped_def trimCommonPrefix_def js_ge_def shorten.simps)
  have sub: "item.subItems six_item = Some six_subitems"
    by (simp add: six_item_def)
  have "six_item \<in> set (product.items
      \<lparr>product.items = [six_item], groups = [unattributed_group 21000 100000 21]\<rparr>)"
    by simp
  from subitems_capped_sorted [OF run this sub] run sub show ?thesis
    by (simp add: six_subitems_def)
qed

subsection \<open>Entity roll-up\<close>


lemma keys_Map_set:
  "map fst (Map_set m k v) = (if k \<in> set (map fst m) then map fst m else map fst m @ [k])"
  by (induction m) (force split: if_splits)+

lemma set_Map_set: "set (Map_set m k v) \<subseteq> insert (k, v) (set m)"
  by (induction m) (auto split: if_splits)

lemma Map_get_SomeD: "Map_get m k = Some v \<Longrightarrow> (k, v) \<in> set m"
  by (simp add: Map_get_def map_of_SomeD)




subsection \<open>Order of the report\<close>

lemma four_scripts_report:
  "audit' four_scripts None =
     Inr \<lparr>product.items =
            [acme_item (ascii ''a.js'') (Some (ascii ''Acme'')),
             acme_item (ascii ''b.js'') None,
             acme_item (ascii ''c.js'') (Some (ascii ''Acme'')),
             acme_item (ascii ''d.js'') (Some (ascii ''Acme''))],
          groups =
            [acme_group (ascii ''Acme'') (ascii ''acme.io'') 60000 120000,
             acme_group [] (ascii ''#'') 30000 60000,
             acme_group (ascii ''Acme'') (ascii ''acme.io'') 30000 60000]\<rparr>"
  by (simp add: audit_defs four_scripts_def acme_def acme_item_def acme_group_def
        example_summary_def make_item_def transferRatio_def script_subItems_def ascii_def)

lemma loop_body_skip_or_push:
  assumes "loop_body a ut bt st e = Inr st1"
  shows "(st1 = st \<and> (\<forall>st0. loop_body a ut bt st0 e = Inr st0))
       \<or> (\<exists>script' r s.
             reaches_check a e script' r s
             \<and> \<not> js_le (item.wastedBytes (scaled_item a script' r s)) ut)"
  using assms
  by (cases e)
     (auto simp: reaches_check_def gets_summary_def loop_body_def bundle_for_def scaled_item_def
        Let_def split: option.splits sum.splits if_splits)

lemma keys_rollup:
  "map fst (rollup a m k it) = (if k \<in> set (map fst m) then map fst m else map fst m @ [k])"
  by (simp only: rollup_def Let_def keys_Map_set)

lemma loop_body_contribution:
  assumes "loop_body a ut bt st e = Inr st1"
  shows "(contribution a ut bt e = [] \<and> st1 = st)
       \<or> (\<exists>k it it'. contribution a ut bt e = [(k, it)]
             \<and> st1 = \<lparr>state.items = state.items st @ [it],
                      byEntity = rollup a (byEntity st) k it'\<rparr>)"
  using loop_body_skip_or_push [OF assms]
proof (elim disjE conjE exE)
  assume "st1 = st" "\<forall>st0. loop_body a ut bt st0 e = Inr st0"
  then show ?thesis
    by (simp add: contribution_def)
next
  fix script' r s
  assume reach: "reaches_check a e script' r s"
    and above: "\<not> js_le (item.wastedBytes (scaled_item a script' r s)) ut"
  have "contribution a ut bt e =
      [(byURL a (script.url script'),
        (scaled_item a script' r s)
          \<lparr>subItems := script_subItems (bundle_for a (fst e)) s (transferRatio a r s) bt\<rparr>)]"
    using above
    by (simp add: contribution_def loop_body_reached [OF reach] keys_rollup)
  moreover have "st1 = \<lparr>state.items = state.items st @
        [(scaled_item a script' r s)
           \<lparr>subItems := script_subItems (bundle_for a (fst e)) s (transferRatio a r s) bt\<rparr>],
      byEntity = rollup a (byEntity st) (byURL a (script.url script'))
                   (scaled_item a script' r s)\<rparr>"
    using assms above by (simp add: loop_body_reached [OF reach])
  ultimately show ?thesis by blast
qed

lemma audit_loop_order:
  assumes "audit_loop a ut bt st es = Inr st'"
  shows "state.items st' =
           state.items st @ concat (map (\<lambda>e. map snd (contribution a ut bt e)) es)
       \<and> map fst (byEntity st') =
           map fst (byEntity st) @
           first_occurrences
             (filter (\<lambda>k. k \<notin> set (map fst (byEntity st)))
                (concat (map (\<lambda>e. map fst (contribution a ut bt e)) es)))"
  using assms
proof (induction es arbitrary: st)
  case Nil
  then show ?case by simp
next
  case (Cons e es)
  from Cons.prems obtain st1 where body: "loop_body a ut bt st e = Inr st1"
    and rest: "audit_loop a ut bt st1 es = Inr st'"
    by (auto split: sum.splits)
  note IH = Cons.IH [OF rest]
  from loop_body_contribution [OF body] show ?case
  proof (elim disjE conjE exE)
    assume "contribution a ut bt e = []" "st1 = st"
    with IH show ?thesis by simp
  next
    fix k it it'
    assume c: "contribution a ut bt e = [(k, it)]"
      and st1: "st1 = \<lparr>state.items = state.items st @ [it],
                        byEntity = rollup a (byEntity st) k it'\<rparr>"
    show ?thesis
    proof (cases "k \<in> set (map fst (byEntity st))")
      case True
      with IH c st1 show ?thesis
        by (simp add: keys_rollup)
    next
      case False
      have "filter (\<lambda>y. y \<noteq> k) (filter (\<lambda>x. x \<notin> set (map fst (byEntity st))) xs)
          = filter (\<lambda>x. x \<notin> set (map fst (byEntity st) @ [k])) xs" for xs
        by (induction xs) auto
      with IH c st1 False show ?thesis
        by (simp add: keys_rollup)
    qed
  qed
qed

lemma audit_loop_groups_invariant:
  assumes "audit_loop a ut bt st es = Inr st'"
    and "\<forall>(k, g)\<in>set (byEntity st). Q k g"
    and step: "\<And>e script' r s g. e \<in> set es \<Longrightarrow> reaches_check a e script' r s \<Longrightarrow>
           \<not> js_le (item.wastedBytes (scaled_item a script' r s)) ut \<Longrightarrow>
           Q (byURL a (script.url script')) g \<or> g = new_group a (byURL a (script.url script')) \<Longrightarrow>
           Q (byURL a (script.url script')) (add_to_group g (scaled_item a script' r s))"
  shows "\<forall>(k, g)\<in>set (byEntity st'). Q k g"
  using assms
proof (induction es arbitrary: st)
  case Nil
  then show ?case by simp
next
  case (Cons e es)
  from Cons.prems(1) obtain st1 where body: "loop_body a ut bt st e = Inr st1"
    and rest: "audit_loop a ut bt st1 es = Inr st'"
    by (auto split: sum.splits)
  have "\<forall>(k, g)\<in>set (byEntity st1). Q k g"
    using loop_body_cases [OF body]
  proof (elim disjE exE conjE)
    assume "st1 = st"
    with Cons.prems(2) show ?thesis by simp
  next
    fix script' r s
    assume reach: "reaches_check a e script' r s"
      and above: "\<not> js_le (item.wastedBytes (scaled_item a script' r s)) ut"
      and st1: "st1 = \<lparr>state.items = state.items st @
                          [(scaled_item a script' r s)
                             \<lparr>subItems := script_subItems (bundle_for a (fst e)) s
                                            (transferRatio a r s) bt\<rparr>],
                        byEntity = rollup a (byEntity st) (byURL a (script.url script'))
                                     (scaled_item a script' r s)\<rparr>"
    define k where "k = byURL a (script.url script')"
    define g where "g = (case Map_get (byEntity st) k of Some g \<Rightarrow> g | None \<Rightarrow> new_group a k)"
    have "Q k g \<or> g = new_group a k"
      using Cons.prems(2) Map_get_SomeD [of "byEntity st" k]
      by (auto simp: g_def split: option.splits)
    then have "Q k (add_to_group g (scaled_item a script' r s))"
      unfolding k_def by (intro Cons.prems(3) [OF _ reach above]) simp_all
    moreover have "byEntity st1 = Map_set (byEntity st) k (add_to_group g (scaled_item a script' r s))"
      unfolding g_def k_def by (simp add: st1 rollup_def)
    ultimately show ?thesis
      using set_Map_set [of "byEntity st" k "add_to_group g (scaled_item a script' r s)"]
        Cons.prems(2)
      by auto
  qed
  then show ?case
  proof (rule Cons.IH [OF rest])
    fix e' script' r s g
    assume "e' \<in> set es" and "reaches_check a e' script' r s"
      and "\<not> js_le (item.wastedBytes (scaled_item a script' r s)) ut"
      and "Q (byURL a (script.url script')) g \<or> g = new_group a (byURL a (script.url script'))"
    then show "Q (byURL a (script.url script')) (add_to_group g (scaled_item a script' r s))"
      by (intro Cons.prems(3)) simp_all
  qed
qed

text \<open>
  C8. The items of the report are the items of the qualifying scripts in the iteration
  order of the coverage set, and the groups are in the order in which their keys first
  occur among the qualifying scripts.
\<close>

theorem report_order:
  assumes "audit' a opts = Inr out"
  shows "product.items out =
           concat (map (\<lambda>e. map snd (contribution a (the_unusedThreshold opts)
                                        (the_bundleSourceUnusedThreshold opts) e)) (JsUsage a))
       \<and> (\<exists>st. audit_run a opts = Inr st
             \<and> groups out = map snd (byEntity st)
             \<and> map fst (byEntity st) =
                 first_occurrences
                   (concat (map (\<lambda>e. map fst (contribution a (the_unusedThreshold opts)
                                                (the_bundleSourceUnusedThreshold opts) e))
                              (JsUsage a))))
       \<and> map group.entity (groups out) =
           map (\<lambda>k. or_string (map_option (\<lambda>r. name (entities a r)) k) [])
             (first_occurrences
                (concat (map (\<lambda>e. map fst (contribution a (the_unusedThreshold opts)
                                             (the_bundleSourceUnusedThreshold opts) e))
                           (JsUsage a))))"
proof -
  from audit'_items [OF assms] obtain st
    where run: "audit_run a opts = Inr st" and items: "product.items out = state.items st"
      and groups: "groups out = map snd (byEntity st)"
    by blast
  note loop = run [unfolded audit_run_def]
  from audit_loop_order [OF loop]
  have order: "state.items st =
      concat (map (\<lambda>e. map snd (contribution a (the_unusedThreshold opts)
                                   (the_bundleSourceUnusedThreshold opts) e)) (JsUsage a))"
    and keys: "map fst (byEntity st) =
      first_occurrences
        (concat (map (\<lambda>e. map fst (contribution a (the_unusedThreshold opts)
                                     (the_bundleSourceUnusedThreshold opts) e)) (JsUsage a)))"
    by simp_all
  have "\<forall>(k, g)\<in>set (byEntity st).
      group.entity g = or_string (map_option (\<lambda>r. name (entities a r)) k) []"
  proof (rule audit_loop_groups_invariant [OF loop])
    show "\<forall>(k, g)\<in>set (byEntity \<lparr>state.items = [], byEntity = []\<rparr>).
        group.entity g = or_string (map_option (\<lambda>r. name (entities a r)) k) []"
      by simp
  next
    fix e and script' :: script and r and s :: summary and g
    assume "group.entity g =
        or_string (map_option (\<lambda>r. name (entities a r)) (byURL a (script.url script'))) []
      \<or> g = new_group a (byURL a (script.url script'))"
    then show "group.entity (add_to_group g (scaled_item a script' r s)) =
        or_string (map_option (\<lambda>r. name (entities a r)) (byURL a (script.url script'))) []"
      by (auto simp: add_to_group_def new_group_def Let_def)
  qed
  then have "map (group.entity \<circ> snd) (byEntity st) =
      map ((\<lambda>k. or_string (map_option (\<lambda>r. name (entities a r)) k) []) \<circ> fst) (byEntity st)"
    by auto
  then have names: "map group.entity (map snd (byEntity st)) =
      map (\<lambda>k. or_string (map_option (\<lambda>r. name (entities a r)) k) []) (map fst (byEntity st))"
    by simp
  from run items groups order keys names show ?thesis
    by simp
qed

theorem report_order_witness:
  "audit' four_scripts None =
     Inr \<lparr>product.items =
            [acme_item (ascii ''a.js'') (Some (ascii ''Acme'')),
             acme_item (ascii ''b.js'') None,
             acme_item (ascii ''c.js'') (Some (ascii ''Acme'')),
             acme_item (ascii ''d.js'') (Some (ascii ''Acme''))],
          groups =
            [acme_group (ascii ''Acme'') (ascii ''acme.io'') 60000 120000,
             acme_group [] (ascii ''#'') 30000 60000,
             acme_group (ascii ''Acme'') (ascii ''acme.io'') 30000 60000]\<rparr>
   \<and> map group.entity
       [acme_group (ascii ''Acme'') (ascii ''acme.io'') 60000 120000,
        acme_group [] (ascii ''#'') 30000 60000,
        acme_group (ascii ''Acme'') (ascii ''acme.io'') 30000 60000]
     = map (\<lambda>k. or_string (map_option (\<lambda>r. name (entities four_scripts r)) k) [])
         (first_occurrences [Some 7, None, Some 7, Some 8])"
proof -
  have c: "concat (map (\<lambda>e. map fst (contribution four_scripts (the_unusedThreshold None)
                                        (the_bundleSourceUnusedThreshold None) e))
                     (JsUsage four_scripts)) = [Some 7, None, Some 7, Some 8]"
    by (simp add: contribution_def audit_defs four_scripts_def acme_def example_summary_def
          make_item_def transferRatio_def script_subItems_def ascii_def)
  from report_order [OF four_scripts_report] four_scripts_report show ?thesis
    by (simp add: c)
qed

subsection \<open>Waste and totals\<close>







end
